theory Spec2Isabelle
  imports Main
begin

section \<open>The document tree held in memory\<close>

text \<open>
  The reader of \<^verbatim>\<open>xml-reader.c\<close> walks a tree that libxml2 has built. The tree is never
  changed by the reader; the reader keeps pointers into it. A pointer is an address
  (\<open>nat option\<close>, \<open>None\<close> for \<^verbatim>\<open>NULL\<close>), and the memory is a finite table from addresses
  to the structures stored there, looked up with \<open>map_of\<close>.

  Only the fields the reader touches are modelled. As in libxml2, a document is itself
  stored as a node (of type \<open>XML_DOCUMENT_NODE\<close>) whose \<^verbatim>\<open>children\<close> field is what the
  macro \<^verbatim>\<open>xmlRootNode\<close> reads, and \<^verbatim>\<open>xmlChildrenNode\<close> is the field \<^verbatim>\<open>children\<close>.
\<close>

datatype xmlElementType =
    XML_ELEMENT_NODE
  | XML_ATTRIBUTE_NODE
  | XML_TEXT_NODE
  | XML_CDATA_SECTION_NODE
  | XML_ENTITY_REF_NODE
  | XML_PI_NODE
  | XML_COMMENT_NODE
  | XML_DOCUMENT_NODE
  | XML_DTD_NODE

record xmlNode =
  n_type :: xmlElementType
  n_name :: "string option"
  n_children :: "nat option"
  n_parent :: "nat option"
  n_next :: "nat option"
  n_content :: "string option"
  n_properties :: "nat option"

text \<open>
  An attribute: its name, the next attribute of the same element, and the string that
  \<^verbatim>\<open>xmlGetProp\<close> builds from the attribute's value (entities substituted).
\<close>

record xmlAttr =
  a_name :: string
  a_next :: "nat option"
  a_value :: string

record memory =
  nodes :: "(nat \<times> xmlNode) list"
  attrs :: "(nat \<times> xmlAttr) list"

subsection \<open>The libxml2 functions the reader calls\<close>

definition xmlNodeIsText :: "xmlNode \<Rightarrow> bool" where
  "xmlNodeIsText n = (n_type n = XML_TEXT_NODE)"

text \<open>Called on text nodes only, for which libxml2 returns a copy of the content.\<close>

definition xmlNodeGetContent :: "xmlNode \<Rightarrow> string option" where
  "xmlNodeGetContent n = n_content n"

text \<open>
  The scan of an attribute list for the first attribute of a given name. The same scan
  is the loop of \<^verbatim>\<open>xml_reader_read_attribute_name\<close> and the search inside
  \<^verbatim>\<open>xmlGetProp\<close>. \<open>None\<close> is no result: an address that holds no attribute, or a list
  that never ends.
\<close>

partial_function (option) find_attribute :: "memory \<Rightarrow> string \<Rightarrow> nat option \<Rightarrow> nat option option" where
  "find_attribute h name attr =
     (case attr of
        None \<Rightarrow> Some None
      | Some a \<Rightarrow>
          (case map_of (attrs h) a of
             None \<Rightarrow> None
           | Some an \<Rightarrow>
               if a_name an = name then Some (Some a)
               else find_attribute h name (a_next an)))"

declare find_attribute.simps [code]

definition xmlGetProp :: "memory \<Rightarrow> nat \<Rightarrow> string \<Rightarrow> string option option" where
  "xmlGetProp h node name =
     (case map_of (nodes h) node of
        None \<Rightarrow> None
      | Some nn \<Rightarrow>
          if n_type nn \<noteq> XML_ELEMENT_NODE then Some None
          else
            (case find_attribute h name (n_properties nn) of
               None \<Rightarrow> None
             | Some None \<Rightarrow> Some None
             | Some (Some a) \<Rightarrow>
                 (case map_of (attrs h) a of
                    None \<Rightarrow> None
                  | Some an \<Rightarrow> Some (Some (a_value an)))))"

section \<open>The reader\<close>

text \<open>
  Modelled from the spec: the enumeration \<^verbatim>\<open>XmlReaderError\<close> is declared in
  \<^verbatim>\<open>xml-reader.h\<close>, which is not part of the sources. The spec names two kinds of error,
  a parse error and an unknown node; these are the two enumerators the source uses.
\<close>

datatype XmlReaderError = XML_READER_ERROR_INVALID | XML_READER_ERROR_UNKNOWN_NODE

text \<open>A GLib error object: domain, code and message.\<close>

record GError =
  domain :: string
  code :: XmlReaderError
  message :: string

definition XML_READER_ERROR :: string where
  "XML_READER_ERROR = ''xml-reader-error-quark''"

text \<open>
  An error out-parameter \<^verbatim>\<open>GError **\<close> is \<open>None\<close> when the caller passes \<^verbatim>\<open>NULL\<close>,
  \<open>Some None\<close> when the location is empty and \<open>Some (Some e)\<close> when it already holds an
  error. \<^verbatim>\<open>g_set_error\<close> fills an empty location and leaves everything else alone.
\<close>

definition g_set_error :: "GError option option \<Rightarrow> string \<Rightarrow> XmlReaderError \<Rightarrow> string \<Rightarrow> GError option option" where
  "g_set_error err d c m =
     (case err of
        None \<Rightarrow> None
      | Some None \<Rightarrow> Some (Some \<lparr>domain = d, code = c, message = m\<rparr>)
      | Some (Some e) \<Rightarrow> Some (Some e))"

text \<open>
  \<^verbatim>\<open>struct _XmlReaderPrivate\<close>. \<open>depth\<close> is a \<^verbatim>\<open>gint\<close>; it moves by one per call, so
  it is modelled as an integer without wrap-around.
\<close>

record XmlReaderPrivate =
  is_filename :: bool
  filename :: "string option"
  error_state :: bool
  last_error :: XmlReaderError
  depth :: int
  current_doc :: "nat option"
  parent :: "nat option"
  node_cursor :: "nat option"
  attr_cursor :: "nat option"
  cursor_value :: "string option"
  attr_value :: "string option"

text \<open>
  \<^verbatim>\<open>g_set_error\<close> reads its message as a \<^verbatim>\<open>printf\<close> format. \<open>format_no_args\<close> is the
  text such a format produces when no argument follows it: \<^verbatim>\<open>%%\<close> is a percent sign,
  and any other directive reads an argument that is not there, which has no result. A
  format without a percent sign is its own text, so the message argument of
  \<open>g_set_error\<close> above is the text after formatting.
\<close>

fun format_no_args :: "string \<Rightarrow> string option" where
  "format_no_args [] = Some []"
| "format_no_args [c] = (if c = CHR ''%'' then None else Some [c])"
| "format_no_args (c # d # cs) =
     (if c = CHR ''%''
      then (if d = CHR ''%'' then map_option ((#) CHR ''%'') (format_no_args cs) else None)
      else map_option ((#) c) (format_no_args (d # cs)))"

text \<open>
  \<^verbatim>\<open>xml_reader_clear\<close>: both cached strings are freed and set to \<^verbatim>\<open>NULL\<close>, and the
  document is freed. The pointer \<open>current_doc\<close> itself is left as it is.
\<close>

definition xml_reader_clear :: "XmlReaderPrivate \<Rightarrow> XmlReaderPrivate" where
  "xml_reader_clear r = r\<lparr>cursor_value := None, attr_value := None\<rparr>"

text \<open>\<^verbatim>\<open>priv->current_doc->xmlRootNode\<close>; \<open>None\<close> when the document pointer is invalid.\<close>

definition xmlRootNode :: "memory \<Rightarrow> XmlReaderPrivate \<Rightarrow> nat option option" where
  "xmlRootNode h r =
     (case current_doc r of
        None \<Rightarrow> None
      | Some d \<Rightarrow> (case map_of (nodes h) d of None \<Rightarrow> None | Some dn \<Rightarrow> Some (n_children dn)))"

text \<open>
  \<^verbatim>\<open>xml_reader_load_from_data\<close>. The parser \<^verbatim>\<open>xmlReadMemory\<close> is a parameter: it maps
  the buffer to the address of the new document, or to \<^verbatim>\<open>NULL\<close>; \<open>h\<close> is the memory
  once the parser has run. The result is the returned boolean, the reader and the
  caller's error location. On failure the source hands the message to \<^verbatim>\<open>g_set_error\<close>
  as the format itself, so a file name with a percent sign in it is read as a
  directive. (\<^verbatim>\<open>xml_reader_load_from_file\<close> reads the file, records its name and calls
  this function; it is not modelled.)
\<close>

definition xml_reader_load_from_data ::
  "memory \<Rightarrow> (string \<Rightarrow> nat option) \<Rightarrow> XmlReaderPrivate \<Rightarrow> string option \<Rightarrow> GError option option
     \<Rightarrow> (bool \<times> XmlReaderPrivate \<times> GError option option) option" where
  "xml_reader_load_from_data h xmlReadMemory r buffer err =
     (case buffer of
        None \<Rightarrow> Some (False, r, err)
      | Some b \<Rightarrow>
          (let r1 = (xml_reader_clear r)\<lparr>current_doc := xmlReadMemory b\<rparr> in
           if current_doc r1 = None then
             (let error_message =
                    (if \<not> is_filename r1 then ''Unable to parse XML buffer''
                     else ''Unable to parse file `''
                            @ (case filename r1 of None \<Rightarrow> ''(null)'' | Some f \<Rightarrow> f)
                            @ [CHR 0x27])
              in if err = None then Some (False, r1, None)
                 else
                   (case format_no_args error_message of
                      None \<Rightarrow> None
                    | Some m \<Rightarrow>
                        Some (False, r1,
                              g_set_error err XML_READER_ERROR XML_READER_ERROR_INVALID m)))
           else
             (case xmlRootNode h r1 of
                None \<Rightarrow> None
              | Some root \<Rightarrow>
                  Some (True,
                        r1\<lparr>parent := root, node_cursor := None, attr_cursor := None, depth := 0\<rparr>,
                        err))))"

text \<open>
  \<^verbatim>\<open>xml_reader_get_error\<close>: the returned boolean and the caller's error location
  afterwards.
\<close>

definition xml_reader_get_error :: "XmlReaderPrivate \<Rightarrow> GError option option \<Rightarrow> bool \<times> GError option option" where
  "xml_reader_get_error r err =
     (if err \<noteq> None \<and> the err = None
      then (error_state r, g_set_error err XML_READER_ERROR (last_error r) ''XmlReader error'')
      else (error_state r, err))"

subsection \<open>Entering and leaving an element\<close>

text \<open>
  The loop of \<^verbatim>\<open>xml_reader_read_start_element\<close>: follow \<^verbatim>\<open>next\<close> from \<open>node\<close> to the
  first element node with a name equal to \<open>element_name\<close>. \<open>Some None\<close> is the end of the
  list without a match.
\<close>

partial_function (option) find_element :: "memory \<Rightarrow> string \<Rightarrow> nat option \<Rightarrow> nat option option" where
  "find_element h element_name node =
     (case node of
        None \<Rightarrow> Some None
      | Some a \<Rightarrow>
          (case map_of (nodes h) a of
             None \<Rightarrow> None
           | Some n \<Rightarrow>
               if n_type n = XML_ELEMENT_NODE \<and> n_name n \<noteq> None \<and> the (n_name n) = element_name
               then Some (Some a)
               else find_element h element_name (n_next n)))"

declare find_element.simps [code]

text \<open>The body of the loop at a match.\<close>

definition start_element_found :: "memory \<Rightarrow> XmlReaderPrivate \<Rightarrow> nat \<Rightarrow> (bool \<times> XmlReaderPrivate) option" where
  "start_element_found h r node =
     (case map_of (nodes h) node of
        None \<Rightarrow> None
      | Some nn \<Rightarrow>
          (let r1 = r\<lparr>parent := node_cursor r, node_cursor := Some node, depth := depth r + 1\<rparr>;
               child = n_children nn
           in case (case child of
                      None \<Rightarrow> Some r1
                    | Some c \<Rightarrow>
                        (case map_of (nodes h) c of
                           None \<Rightarrow> None
                         | Some cn \<Rightarrow>
                             Some (if xmlNodeIsText cn
                                   then r1\<lparr>cursor_value := xmlNodeGetContent cn\<rparr>
                                   else r1))) of
                None \<Rightarrow> None
              | Some r2 \<Rightarrow>
                  Some (True, r2\<lparr>attr_cursor := n_properties nn, attr_value := None\<rparr>)))"

text \<open>The code after the loop, reached when nothing matched.\<close>

definition start_element_missing :: "memory \<Rightarrow> XmlReaderPrivate \<Rightarrow> (bool \<times> XmlReaderPrivate) option" where
  "start_element_missing h r =
     (let r1 = r\<lparr>error_state := True, last_error := XML_READER_ERROR_UNKNOWN_NODE,
                 parent := node_cursor r\<rparr>
      in case (if parent r1 = None
               then (case xmlRootNode h r1 of
                       None \<Rightarrow> None
                     | Some root \<Rightarrow> Some (r1\<lparr>parent := root\<rparr>))
               else Some r1) of
           None \<Rightarrow> None
         | Some r2 \<Rightarrow> Some (False, r2\<lparr>node_cursor := None, attr_cursor := None\<rparr>))"

definition xml_reader_read_start_element ::
  "memory \<Rightarrow> XmlReaderPrivate \<Rightarrow> string option \<Rightarrow> (bool \<times> XmlReaderPrivate) option" where
  "xml_reader_read_start_element h r element_name =
     (case element_name of
        None \<Rightarrow> Some (False, r)
      | Some name \<Rightarrow>
          if fst (xml_reader_get_error r None) then Some (False, r)
          else
            (case (case node_cursor r of
                     None \<Rightarrow> xmlRootNode h r
                   | Some c \<Rightarrow>
                       (case map_of (nodes h) c of
                          None \<Rightarrow> None
                        | Some cn \<Rightarrow> Some (n_children cn))) of
               None \<Rightarrow> None
             | Some cursor \<Rightarrow>
                 (case find_element h name cursor of
                    None \<Rightarrow> None
                  | Some None \<Rightarrow> start_element_missing h r
                  | Some (Some node) \<Rightarrow> start_element_found h r node)))"

text \<open>
  \<^verbatim>\<open>xml_reader_read_end_element\<close>. The warning printed when no cursor is set is not
  part of the state and is left out.
\<close>

definition xml_reader_read_end_element :: "memory \<Rightarrow> XmlReaderPrivate \<Rightarrow> XmlReaderPrivate option" where
  "xml_reader_read_end_element h r =
     (if fst (xml_reader_get_error r None) then
        (let r1 = r\<lparr>error_state := False, node_cursor := parent r\<rparr> in
         case node_cursor r1 of
           None \<Rightarrow>
             (case xmlRootNode h r1 of
                None \<Rightarrow> None
              | Some root \<Rightarrow> Some (r1\<lparr>node_cursor := root, parent := None\<rparr>))
         | Some c \<Rightarrow>
             (case map_of (nodes h) c of
                None \<Rightarrow> None
              | Some cn \<Rightarrow> Some (r1\<lparr>parent := n_parent cn\<rparr>)))
      else if node_cursor r = None then Some r
      else
        (let r1 = r\<lparr>cursor_value := None, attr_value := None, depth := depth r - 1,
                    node_cursor := parent r\<rparr>
         in case (case parent r1 of
                    None \<Rightarrow> Some None
                  | Some p \<Rightarrow>
                      (case map_of (nodes h) p of
                         None \<Rightarrow> None
                       | Some pn \<Rightarrow> Some (n_parent pn))) of
              None \<Rightarrow> None
            | Some pp \<Rightarrow>
                (let r2 = r1\<lparr>parent := pp\<rparr> in
                 case (if node_cursor r2 = None
                       then (case xmlRootNode h r2 of
                               None \<Rightarrow> None
                             | Some root \<Rightarrow> Some (r2\<lparr>node_cursor := root\<rparr>))
                       else Some r2) of
                   None \<Rightarrow> None
                 | Some r3 \<Rightarrow> Some (r3\<lparr>attr_cursor := None\<rparr>))))"

subsection \<open>Reading the current element\<close>

definition xml_reader_get_element_name :: "memory \<Rightarrow> XmlReaderPrivate \<Rightarrow> string option option" where
  "xml_reader_get_element_name h r =
     (if fst (xml_reader_get_error r None) then Some None
      else
        (case node_cursor r of
           None \<Rightarrow> Some None
         | Some c \<Rightarrow>
             (case map_of (nodes h) c of
                None \<Rightarrow> None
              | Some cn \<Rightarrow> Some (n_name cn))))"

definition xml_reader_get_element_value :: "XmlReaderPrivate \<Rightarrow> string option" where
  "xml_reader_get_element_value r =
     (if fst (xml_reader_get_error r None) then None
      else if cursor_value r \<noteq> None then cursor_value r
      else None)"

subsection \<open>Attributes\<close>

definition xml_reader_has_attributes :: "memory \<Rightarrow> XmlReaderPrivate \<Rightarrow> bool option" where
  "xml_reader_has_attributes h r =
     (if fst (xml_reader_get_error r None) then Some False
      else
        (case node_cursor r of
           None \<Rightarrow> Some False
         | Some c \<Rightarrow>
             (case map_of (nodes h) c of
                None \<Rightarrow> None
              | Some cn \<Rightarrow> Some (n_properties cn \<noteq> None))))"

text \<open>
  \<^verbatim>\<open>xml_reader_read_attribute_name\<close>: the scan is \<open>find_attribute\<close>; at a match the
  attribute becomes the selected one and its value is fetched with \<^verbatim>\<open>xmlGetProp\<close>.
\<close>

definition xml_reader_read_attribute_name ::
  "memory \<Rightarrow> XmlReaderPrivate \<Rightarrow> string option \<Rightarrow> (bool \<times> XmlReaderPrivate) option" where
  "xml_reader_read_attribute_name h r attribute_name =
     (case attribute_name of
        None \<Rightarrow> Some (False, r)
      | Some name \<Rightarrow>
          (case node_cursor r of
             None \<Rightarrow> Some (False, r)
           | Some c \<Rightarrow>
               (case xml_reader_has_attributes h r of
                  None \<Rightarrow> None
                | Some has \<Rightarrow>
                    if \<not> has then Some (False, r)
                    else
                      (case map_of (nodes h) c of
                         None \<Rightarrow> None
                       | Some cn \<Rightarrow>
                           (case find_attribute h name (n_properties cn) of
                              None \<Rightarrow> None
                            | Some None \<Rightarrow> Some (False, r)
                            | Some (Some attr) \<Rightarrow>
                                (case map_of (attrs h) attr of
                                   None \<Rightarrow> None
                                 | Some an \<Rightarrow>
                                     (case xmlGetProp h c (a_name an) of
                                        None \<Rightarrow> None
                                      | Some v \<Rightarrow>
                                          Some (True, r\<lparr>attr_cursor := Some attr,
                                                         attr_value := v\<rparr>))))))))"

definition xml_reader_get_attribute_value :: "XmlReaderPrivate \<Rightarrow> string option" where
  "xml_reader_get_attribute_value r = attr_value r"

text \<open>The two remaining attribute loops: counting, and the attribute at a position.\<close>

partial_function (option) count_attributes_loop :: "memory \<Rightarrow> nat option \<Rightarrow> int \<Rightarrow> int option" where
  "count_attributes_loop h attr count =
     (case attr of
        None \<Rightarrow> Some count
      | Some a \<Rightarrow>
          (case map_of (attrs h) a of
             None \<Rightarrow> None
           | Some an \<Rightarrow> count_attributes_loop h (a_next an) (count + 1)))"

declare count_attributes_loop.simps [code]

definition xml_reader_count_attributes :: "memory \<Rightarrow> XmlReaderPrivate \<Rightarrow> int option" where
  "xml_reader_count_attributes h r =
     (if fst (xml_reader_get_error r None) then Some (- 1)
      else
        (case node_cursor r of
           None \<Rightarrow> Some (- 1)
         | Some c \<Rightarrow>
             (case xml_reader_has_attributes h r of
                None \<Rightarrow> None
              | Some has \<Rightarrow>
                  if \<not> has then Some 0
                  else
                    (case map_of (nodes h) c of
                       None \<Rightarrow> None
                     | Some cn \<Rightarrow> count_attributes_loop h (n_properties cn) 0))))"

partial_function (option) attribute_at :: "memory \<Rightarrow> int \<Rightarrow> nat option \<Rightarrow> int \<Rightarrow> nat option option" where
  "attribute_at h index attr i =
     (case attr of
        None \<Rightarrow> Some None
      | Some a \<Rightarrow>
          if i = index then Some (Some a)
          else
            (case map_of (attrs h) a of
               None \<Rightarrow> None
             | Some an \<Rightarrow> attribute_at h index (a_next an) (i + 1)))"

declare attribute_at.simps [code]

definition xml_reader_read_attribute_pos ::
  "memory \<Rightarrow> XmlReaderPrivate \<Rightarrow> int \<Rightarrow> (bool \<times> XmlReaderPrivate) option" where
  "xml_reader_read_attribute_pos h r index =
     (if fst (xml_reader_get_error r None) then Some (False, r)
      else
        (case node_cursor r of
           None \<Rightarrow> Some (False, r)
         | Some c \<Rightarrow>
             (case xml_reader_has_attributes h r of
                None \<Rightarrow> None
              | Some has \<Rightarrow>
                  if \<not> has then Some (False, r)
                  else
                    (case map_of (nodes h) c of
                       None \<Rightarrow> None
                     | Some cn \<Rightarrow>
                         (case attribute_at h index (n_properties cn) 0 of
                            None \<Rightarrow> None
                          | Some None \<Rightarrow> Some (False, r)
                          | Some (Some attr) \<Rightarrow>
                              (case map_of (attrs h) attr of
                                 None \<Rightarrow> None
                               | Some an \<Rightarrow>
                                   (case xmlGetProp h c (a_name an) of
                                      None \<Rightarrow> None
                                    | Some v \<Rightarrow>
                                        Some (True, r\<lparr>attr_cursor := Some attr,
                                                       attr_value := v\<rparr>))))))))"

subsection \<open>A new reader\<close>

text \<open>
  \<^verbatim>\<open>xml_reader_init\<close>, on the zeroed private data that GObject hands to it. The source
  writes \<^verbatim>\<open>priv->last_error = 0\<close>; the first enumerator is taken to be the one of
  value 0.
\<close>

definition xml_reader_init :: XmlReaderPrivate where
  "xml_reader_init =
     \<lparr>is_filename = False, filename = None, error_state = False,
      last_error = XML_READER_ERROR_INVALID, depth = 0, current_doc = None, parent = None,
      node_cursor = None, attr_cursor = None, cursor_value = None, attr_value = None\<rparr>"

section \<open>Sequences of calls\<close>

text \<open>
  A client drives the reader by entering and leaving elements. \<open>run\<close> performs a list
  of such calls, threading the reader through them; it has no result as soon as one call
  has none.
\<close>

datatype reader_op = Enter string | Leave

fun step :: "memory \<Rightarrow> reader_op \<Rightarrow> XmlReaderPrivate \<Rightarrow> XmlReaderPrivate option" where
  "step h (Enter name) r = map_option snd (xml_reader_read_start_element h r (Some name))"
| "step h Leave r = xml_reader_read_end_element h r"

fun run :: "memory \<Rightarrow> reader_op list \<Rightarrow> XmlReaderPrivate \<Rightarrow> XmlReaderPrivate option" where
  "run h [] r = Some r"
| "run h (x # xs) r = (case step h x r of None \<Rightarrow> None | Some r' \<Rightarrow> run h xs r')"

text \<open>
  \<open>bracketed h r w r'\<close>: the calls \<open>w\<close> take the reader from \<open>r\<close> to \<open>r'\<close>, every enter
  in \<open>w\<close> returns \<^verbatim>\<open>TRUE\<close>, and every enter is closed by a later leave of its own
  (the calls nest like brackets).
\<close>

inductive bracketed :: "memory \<Rightarrow> XmlReaderPrivate \<Rightarrow> reader_op list \<Rightarrow> XmlReaderPrivate \<Rightarrow> bool" where
  bracketed_Nil: "bracketed h r [] r"
| bracketed_Pair:
    "xml_reader_read_start_element h r (Some name) = Some (True, r1) \<Longrightarrow>
     bracketed h r1 w r2 \<Longrightarrow>
     xml_reader_read_end_element h r2 = Some r3 \<Longrightarrow>
     bracketed h r3 v r4 \<Longrightarrow>
     bracketed h r (Enter name # w @ Leave # v) r4"

section \<open>Well-formed memory\<close>

text \<open>
  \<open>node_chain h p xs\<close>: following \<^verbatim>\<open>next\<close> from \<open>p\<close> visits exactly the addresses \<open>xs\<close>,
  each holding a node, and then reaches \<^verbatim>\<open>NULL\<close>. \<open>attr_chain\<close> is the same for
  attribute lists.
\<close>

fun node_chain :: "memory \<Rightarrow> nat option \<Rightarrow> nat list \<Rightarrow> bool" where
  "node_chain h p [] = (p = None)"
| "node_chain h p (a # as) =
     (p = Some a \<and>
      (case map_of (nodes h) a of None \<Rightarrow> False | Some n \<Rightarrow> node_chain h (n_next n) as))"

fun attr_chain :: "memory \<Rightarrow> nat option \<Rightarrow> nat list \<Rightarrow> bool" where
  "attr_chain h p [] = (p = None)"
| "attr_chain h p (a # as) =
     (p = Some a \<and>
      (case map_of (attrs h) a of None \<Rightarrow> False | Some an \<Rightarrow> attr_chain h (a_next an) as))"

definition is_element :: "memory \<Rightarrow> nat \<Rightarrow> bool" where
  "is_element h a =
     (case map_of (nodes h) a of None \<Rightarrow> False | Some n \<Rightarrow> n_type n = XML_ELEMENT_NODE)"

definition element_named :: "memory \<Rightarrow> string \<Rightarrow> nat \<Rightarrow> bool" where
  "element_named h name a =
     (case map_of (nodes h) a of
        None \<Rightarrow> False
      | Some n \<Rightarrow> n_type n = XML_ELEMENT_NODE \<and> n_name n = Some name)"

definition attr_named :: "memory \<Rightarrow> string \<Rightarrow> nat \<Rightarrow> bool" where
  "attr_named h name a =
     (case map_of (attrs h) a of None \<Rightarrow> False | Some an \<Rightarrow> a_name an = name)"

text \<open>
  A well-formed document has exactly one element among the nodes at its top level (the
  others are comments and the like): \<open>tops\<close> are the top-level nodes in order, \<open>e\<close> is
  the root element and \<open>R\<close> its name.
\<close>

definition well_formed_document :: "memory \<Rightarrow> XmlReaderPrivate \<Rightarrow> nat list \<Rightarrow> nat \<Rightarrow> string \<Rightarrow> bool" where
  "well_formed_document h r tops e R =
     (case xmlRootNode h r of
        None \<Rightarrow> False
      | Some root \<Rightarrow>
          node_chain h root tops \<and> filter (is_element h) tops = [e] \<and> element_named h R e)"

text \<open>
  The parent links of a libxml2 tree agree with its child lists: the first child of a
  node has that node as parent, and a node's next sibling has the same parent as the
  node.
\<close>

definition links_ok :: "memory \<Rightarrow> bool" where
  "links_ok h =
     list_all
       (\<lambda>(c, n).
          (case n_children n of
             None \<Rightarrow> True
           | Some a \<Rightarrow>
               (case map_of (nodes h) a of None \<Rightarrow> False | Some m \<Rightarrow> n_parent m = Some c))
          \<and> (case n_next n of
               None \<Rightarrow> True
             | Some y \<Rightarrow>
                 (case map_of (nodes h) y of
                    None \<Rightarrow> False
                  | Some m \<Rightarrow> n_parent m = n_parent n)))
       (nodes h)"

section \<open>Example documents\<close>

definition mk_node ::
  "xmlElementType \<Rightarrow> string option \<Rightarrow> nat option \<Rightarrow> nat option \<Rightarrow> nat option \<Rightarrow> string option
     \<Rightarrow> nat option \<Rightarrow> xmlNode" where
  "mk_node t nm ch pa nx co pr =
     \<lparr>n_type = t, n_name = nm, n_children = ch, n_parent = pa, n_next = nx, n_content = co,
      n_properties = pr\<rparr>"

text \<open>
  \<^verbatim>\<open><book><author>Jane</author><title>Go</title></book>\<close>: the document at address 0,
  \<^verbatim>\<open>book\<close> at 1, \<^verbatim>\<open>author\<close> at 2 with its text at 3, \<^verbatim>\<open>title\<close> at 4 with its text
  at 5.
\<close>

definition book_memory :: memory where
  "book_memory =
     \<lparr>nodes =
        [(0, mk_node XML_DOCUMENT_NODE None (Some 1) None None None None),
         (1, mk_node XML_ELEMENT_NODE (Some ''book'') (Some 2) (Some 0) None None None),
         (2, mk_node XML_ELEMENT_NODE (Some ''author'') (Some 3) (Some 1) (Some 4) None None),
         (3, mk_node XML_TEXT_NODE (Some ''text'') None (Some 2) None (Some ''Jane'') None),
         (4, mk_node XML_ELEMENT_NODE (Some ''title'') (Some 5) (Some 1) None None None),
         (5, mk_node XML_TEXT_NODE (Some ''text'') None (Some 4) None (Some ''Go'') None)],
      attrs = []\<rparr>"

definition book_text :: string where
  "book_text = ''<book><author>Jane</author><title>Go</title></book>''"

definition book_reader :: XmlReaderPrivate where
  "book_reader =
     fst (snd (the (xml_reader_load_from_data book_memory (\<lambda>b. Some 0) xml_reader_init
                      (Some book_text) None)))"

text \<open>
  \<^verbatim>\<open><a>hello<b/></a>\<close>: the document at 0, \<^verbatim>\<open>a\<close> at 1, its text at 2 and the empty
  element \<^verbatim>\<open>b\<close> at 3.
\<close>

definition mixed_memory :: memory where
  "mixed_memory =
     \<lparr>nodes =
        [(0, mk_node XML_DOCUMENT_NODE None (Some 1) None None None None),
         (1, mk_node XML_ELEMENT_NODE (Some ''a'') (Some 2) (Some 0) None None None),
         (2, mk_node XML_TEXT_NODE (Some ''text'') None (Some 1) (Some 3) (Some ''hello'') None),
         (3, mk_node XML_ELEMENT_NODE (Some ''b'') None (Some 1) None None None)],
      attrs = []\<rparr>"

definition mixed_reader :: XmlReaderPrivate where
  "mixed_reader =
     fst (snd (the (xml_reader_load_from_data mixed_memory (\<lambda>b. Some 0) xml_reader_init
                      (Some ''<a>hello<b/></a>'') None)))"

text \<open>
  \<^verbatim>\<open><node role="admin" dir="rtl">payload</node>\<close>: the element at 1, its text at 2,
  and its two attributes at the attribute addresses 0 and 1.
\<close>

definition attr_memory :: memory where
  "attr_memory =
     \<lparr>nodes =
        [(0, mk_node XML_DOCUMENT_NODE None (Some 1) None None None None),
         (1, mk_node XML_ELEMENT_NODE (Some ''node'') (Some 2) (Some 0) None None (Some 0)),
         (2, mk_node XML_TEXT_NODE (Some ''text'') None (Some 1) None (Some ''payload'') None)],
      attrs =
        [(0, \<lparr>a_name = ''role'', a_next = Some 1, a_value = ''admin''\<rparr>),
         (1, \<lparr>a_name = ''dir'', a_next = None, a_value = ''rtl''\<rparr>)]\<rparr>"

definition attr_text :: string where
  "attr_text =
     ''<node role='' @ [CHR 0x22] @ ''admin'' @ [CHR 0x22] @ '' dir='' @ [CHR 0x22] @ ''rtl''
       @ [CHR 0x22] @ ''>payload</node>''"

definition attr_reader :: XmlReaderPrivate where
  "attr_reader =
     fst (snd (the (xml_reader_load_from_data attr_memory (\<lambda>b. Some 0) xml_reader_init
                      (Some attr_text) None)))"

text \<open>Readers reached on the example documents.\<close>

definition book_entered :: XmlReaderPrivate where
  "book_entered = the (run book_memory [Enter ''book''] book_reader)"

definition book_rest :: XmlReaderPrivate where
  "book_rest = the (run book_memory [Enter ''book'', Leave] book_reader)"

definition book_failed :: XmlReaderPrivate where
  "book_failed = the (run book_memory [Enter ''missing''] book_reader)"

definition book_recovered :: XmlReaderPrivate where
  "book_recovered = the (run book_memory [Enter ''missing'', Leave] book_reader)"

definition book_reloaded :: XmlReaderPrivate where
  "book_reloaded =
     fst (snd (the (xml_reader_load_from_data book_memory (\<lambda>b. Some 0) book_failed
                      (Some book_text) None)))"

definition book_inner_failed :: XmlReaderPrivate where
  "book_inner_failed = the (run book_memory [Enter ''book'', Enter ''missing''] book_reader)"

definition book_back :: XmlReaderPrivate where
  "book_back =
     the (run book_memory
            [Enter ''book'', Enter ''author'', Leave, Enter ''title'', Leave] book_reader)"

definition book_nested :: XmlReaderPrivate where
  "book_nested =
     the (run book_memory [Enter ''book'', Enter ''author'', Leave, Leave] book_reader)"

definition attr_entered :: XmlReaderPrivate where
  "attr_entered = the (run attr_memory [Enter ''node''] attr_reader)"

section \<open>An invariant of the calls after a load\<close>

text \<open>
  What every reader \<open>s\<close> reached from the reader \<open>r0\<close> that a load returned satisfies.
  The document is the same. When it has no top-level node the reader never gets a
  cursor. Otherwise a reader is in its error state, or has a cursor, or is still \<open>r0\<close>.
\<close>

definition load_inv :: "memory \<Rightarrow> XmlReaderPrivate \<Rightarrow> XmlReaderPrivate \<Rightarrow> bool" where
  "load_inv h r0 s =
     (case xmlRootNode h r0 of
        None \<Rightarrow> False
      | Some root \<Rightarrow>
          xmlRootNode h s = Some root \<and>
          (case root of
             None \<Rightarrow> node_cursor s = None \<and> parent s = None \<and> depth s = 0
           | Some a \<Rightarrow> error_state s \<or> node_cursor s \<noteq> None \<or> (s = r0 \<and> depth s = 0)))"

section \<open>Facts about the scans\<close>

lemma find_element_None [simp]: "find_element h name None = Some None"
  by (subst find_element.simps) simp

lemma find_element_Some:
  "find_element h name (Some a) =
     (case map_of (nodes h) a of
        None \<Rightarrow> None
      | Some n \<Rightarrow>
          if n_type n = XML_ELEMENT_NODE \<and> n_name n = Some name then Some (Some a)
          else find_element h name (n_next n))"
  by (subst find_element.simps) (auto split: option.splits)

lemma find_element_chain:
  "node_chain h p xs \<Longrightarrow> find_element h name p = Some (List.find (element_named h name) xs)"
proof (induction xs arbitrary: p)
  case Nil
  then show ?case by simp
next
  case (Cons a as)
  then show ?case
    by (auto simp: find_element_Some element_named_def split: option.splits)
qed

lemma find_element_deref:
  "find_element h name (Some a) = Some y \<Longrightarrow> \<exists>n. map_of (nodes h) a = Some n"
  by (auto simp: find_element_Some split: option.splits)

lemma find_element_match_aux:
  assumes "find_element h name p = Some y"
  shows "\<forall>a. y = Some a \<longrightarrow>
      (\<exists>n. map_of (nodes h) a = Some n \<and> n_type n = XML_ELEMENT_NODE \<and> n_name n = Some name)"
proof (rule find_element.raw_induct
    [where P = "\<lambda>h name p y. \<forall>a. y = Some a \<longrightarrow>
      (\<exists>n. map_of (nodes h) a = Some n \<and> n_type n = XML_ELEMENT_NODE \<and> n_name n = Some name)",
      OF _ assms], goal_cases)
  case (1 f h name p y)
  then show ?case
    by (auto split: option.splits if_splits)
qed

lemma find_element_match:
  "find_element h name p = Some (Some a) \<Longrightarrow>
   \<exists>n. map_of (nodes h) a = Some n \<and> n_type n = XML_ELEMENT_NODE \<and> n_name n = Some name"
  using find_element_match_aux by blast

lemma find_attribute_None [simp]: "find_attribute h name None = Some None"
  by (subst find_attribute.simps) simp

lemma find_attribute_Some:
  "find_attribute h name (Some a) =
     (case map_of (attrs h) a of
        None \<Rightarrow> None
      | Some an \<Rightarrow>
          if a_name an = name then Some (Some a)
          else find_attribute h name (a_next an))"
  by (subst find_attribute.simps) simp

lemma find_attribute_chain:
  "attr_chain h p xs \<Longrightarrow> find_attribute h name p = Some (List.find (attr_named h name) xs)"
proof (induction xs arbitrary: p)
  case Nil
  then show ?case by simp
next
  case (Cons a as)
  then show ?case
    by (auto simp: find_attribute_Some attr_named_def split: option.splits)
qed

lemma links_okD:
  assumes "links_ok h" "map_of (nodes h) c = Some n"
  shows "n_children n = Some a \<Longrightarrow> \<exists>m. map_of (nodes h) a = Some m \<and> n_parent m = Some c"
    and "n_next n = Some y \<Longrightarrow> \<exists>m. map_of (nodes h) y = Some m \<and> n_parent m = n_parent n"
proof -
  from assms(2) have "(c, n) \<in> set (nodes h)" by (rule map_of_SomeD)
  with assms(1) have *: "(case n_children n of
             None \<Rightarrow> True
           | Some a \<Rightarrow>
               (case map_of (nodes h) a of None \<Rightarrow> False | Some m \<Rightarrow> n_parent m = Some c))
          \<and> (case n_next n of
               None \<Rightarrow> True
             | Some y \<Rightarrow>
                 (case map_of (nodes h) y of
                    None \<Rightarrow> False
                  | Some m \<Rightarrow> n_parent m = n_parent n))"
    unfolding links_ok_def list_all_iff by fastforce
  show "n_children n = Some a \<Longrightarrow> \<exists>m. map_of (nodes h) a = Some m \<and> n_parent m = Some c"
    using * by (auto split: option.splits)
  show "n_next n = Some y \<Longrightarrow> \<exists>m. map_of (nodes h) y = Some m \<and> n_parent m = n_parent n"
    using * by (auto split: option.splits)
qed

lemma find_element_parent_aux:
  assumes "find_element h name p = Some y"
  shows "\<forall>a q. y = Some a \<longrightarrow> links_ok h \<longrightarrow>
      (\<forall>x. p = Some x \<longrightarrow> (\<exists>m. map_of (nodes h) x = Some m \<and> n_parent m = q)) \<longrightarrow>
      (\<exists>m. map_of (nodes h) a = Some m \<and> n_parent m = q)"
proof (rule find_element.raw_induct
    [where P = "\<lambda>h name p y. \<forall>a q. y = Some a \<longrightarrow> links_ok h \<longrightarrow>
      (\<forall>x. p = Some x \<longrightarrow> (\<exists>m. map_of (nodes h) x = Some m \<and> n_parent m = q)) \<longrightarrow>
      (\<exists>m. map_of (nodes h) a = Some m \<and> n_parent m = q)",
      OF _ assms], goal_cases)
  case (1 f h name p y)
  show ?case
  proof (intro allI impI)
    fix a q
    assume y: "y = Some a" and ok: "links_ok h"
      and px: "\<forall>x. p = Some x \<longrightarrow> (\<exists>m. map_of (nodes h) x = Some m \<and> n_parent m = q)"
    show "\<exists>m. map_of (nodes h) a = Some m \<and> n_parent m = q"
    proof (cases p)
      case None
      with 1(2) y show ?thesis by simp
    next
      case (Some x)
      with px obtain m where m: "map_of (nodes h) x = Some m" "n_parent m = q" by auto
      show ?thesis
      proof (cases "n_type m = XML_ELEMENT_NODE \<and> n_name m \<noteq> None \<and> the (n_name m) = name")
        case True
        with 1(2) Some m y show ?thesis by auto
      next
        case False
        with 1(2) Some m y have f: "f h name (n_next m) = Some (Some a)" by auto
        have "\<forall>z. n_next m = Some z \<longrightarrow> (\<exists>k. map_of (nodes h) z = Some k \<and> n_parent k = q)"
          using links_okD(2)[OF ok m(1)] m(2) by auto
        with 1(1)[OF f] ok show ?thesis by blast
      qed
    qed
  qed
qed

lemma find_element_child_parent:
  assumes "links_ok h" "map_of (nodes h) c = Some cn"
    "find_element h name (n_children cn) = Some (Some a)"
  shows "\<exists>m. map_of (nodes h) a = Some m \<and> n_parent m = Some c"
  using find_element_parent_aux[OF assms(3)] assms(1) links_okD(1)[OF assms(1,2)]
  by blast

lemma find_unique_hit:
  "filter P xs = [e] \<Longrightarrow> Q e \<Longrightarrow> (\<And>x. Q x \<Longrightarrow> P x) \<Longrightarrow> List.find Q xs = Some e"
proof (induction xs)
  case Nil
  then show ?case by simp
next
  case (Cons a as)
  show ?case
  proof (cases "P a")
    case True
    with Cons.prems(1) have "a = e" by simp
    with Cons.prems(2) show ?thesis by simp
  next
    case False
    with Cons.prems(3) have "\<not> Q a" by blast
    moreover from False Cons.prems(1) have "filter P as = [e]" by simp
    ultimately show ?thesis using Cons.IH Cons.prems(2,3) by simp
  qed
qed

lemma find_unique_miss:
  "filter P xs = [e] \<Longrightarrow> \<not> Q e \<Longrightarrow> (\<And>x. Q x \<Longrightarrow> P x) \<Longrightarrow> List.find Q xs = None"
proof -
  assume a: "filter P xs = [e]" "\<not> Q e" and b: "\<And>x. Q x \<Longrightarrow> P x"
  have "\<forall>x\<in>set xs. Q x \<longrightarrow> x = e"
  proof (intro ballI impI)
    fix x assume "x \<in> set xs" "Q x"
    then have "x \<in> set (filter P xs)" using b by simp
    with a(1) show "x = e" by simp
  qed
  with a(2) have "\<forall>x\<in>set xs. \<not> Q x" by blast
  then show ?thesis by (simp add: find_None_iff)
qed

section \<open>Facts about the calls\<close>

lemma get_error_NULL [simp]: "xml_reader_get_error r None = (error_state r, None)"
  by (simp add: xml_reader_get_error_def)

lemma xmlRootNode_update [simp]:
  "xmlRootNode h (r\<lparr>is_filename := x1\<rparr>) = xmlRootNode h r"
  "xmlRootNode h (r\<lparr>filename := x2\<rparr>) = xmlRootNode h r"
  "xmlRootNode h (r\<lparr>error_state := x3\<rparr>) = xmlRootNode h r"
  "xmlRootNode h (r\<lparr>last_error := x4\<rparr>) = xmlRootNode h r"
  "xmlRootNode h (r\<lparr>depth := x5\<rparr>) = xmlRootNode h r"
  "xmlRootNode h (r\<lparr>parent := x6\<rparr>) = xmlRootNode h r"
  "xmlRootNode h (r\<lparr>node_cursor := x7\<rparr>) = xmlRootNode h r"
  "xmlRootNode h (r\<lparr>attr_cursor := x8\<rparr>) = xmlRootNode h r"
  "xmlRootNode h (r\<lparr>cursor_value := x9\<rparr>) = xmlRootNode h r"
  "xmlRootNode h (r\<lparr>attr_value := x10\<rparr>) = xmlRootNode h r"
  by (simp_all add: xmlRootNode_def)

lemma load_success:
  assumes "xml_reader_load_from_data h parse r buffer err = Some (True, r0, err')"
  shows "\<exists>b d root. buffer = Some b \<and> parse b = Some d \<and>
           xmlRootNode h r0 = Some root \<and>
           r0 = r\<lparr>cursor_value := None, attr_value := None, current_doc := Some d,
                  parent := root, node_cursor := None, attr_cursor := None, depth := 0\<rparr>"
  using assms
  by (auto simp: xml_reader_load_from_data_def xml_reader_clear_def xmlRootNode_def Let_def
      split: option.splits if_splits)

lemma enter_success:
  assumes "xml_reader_read_start_element h r (Some name) = Some (True, r1)"
  shows "\<not> error_state r \<and> \<not> error_state r1 \<and> depth r1 = depth r + 1
     \<and> parent r1 = node_cursor r \<and> current_doc r1 = current_doc r
     \<and> (\<exists>a. node_cursor r1 = Some a
          \<and> (\<forall>c. node_cursor r = Some c \<longrightarrow>
                (\<exists>cn. map_of (nodes h) c = Some cn
                   \<and> find_element h name (n_children cn) = Some (Some a)))
          \<and> (node_cursor r = None \<longrightarrow>
                (\<exists>root. xmlRootNode h r = Some (Some root))))"
proof -
  from assms have ne: "\<not> error_state r"
    by (auto simp: xml_reader_read_start_element_def split: if_splits)
  have miss: "start_element_missing h r \<noteq> Some (True, r1)"
    by (auto simp: start_element_missing_def Let_def split: option.splits if_splits)
  from assms ne miss obtain cursor a where
    scan: "find_element h name cursor = Some (Some a)"
    and found: "start_element_found h r a = Some (True, r1)"
    and cur: "\<forall>c. node_cursor r = Some c \<longrightarrow>
                (\<exists>cn. map_of (nodes h) c = Some cn \<and> cursor = n_children cn)"
    and top: "node_cursor r = None \<longrightarrow> xmlRootNode h r = Some cursor"
    by (auto simp: xml_reader_read_start_element_def split: option.splits)
  from scan have "cursor \<noteq> None" by (cases cursor) simp_all
  with top have top': "node_cursor r = None \<longrightarrow> (\<exists>root. xmlRootNode h r = Some (Some root))"
    by auto
  from found have "\<not> error_state r1 = (\<not> error_state r) \<and> depth r1 = depth r + 1
     \<and> parent r1 = node_cursor r \<and> node_cursor r1 = Some a \<and> current_doc r1 = current_doc r"
    by (auto simp: start_element_found_def Let_def split: option.splits if_splits)
  with ne scan cur top' show ?thesis by auto
qed

lemma leave_normal:
  assumes "\<not> error_state r" "node_cursor r = Some a" "xml_reader_read_end_element h r = Some r3"
  shows "depth r3 = depth r - 1 \<and> \<not> error_state r3 \<and> current_doc r3 = current_doc r
     \<and> (\<forall>p. parent r = Some p \<longrightarrow>
           node_cursor r3 = Some p \<and> (\<exists>pn. map_of (nodes h) p = Some pn \<and> parent r3 = n_parent pn))
     \<and> (parent r = None \<longrightarrow> xmlRootNode h r = Some (node_cursor r3))"
  using assms
  by (auto simp: xml_reader_read_end_element_def Let_def split: option.splits if_splits)

lemma xmlRootNode_same_doc:
  "current_doc r' = current_doc r \<Longrightarrow> xmlRootNode h r' = xmlRootNode h r"
  by (simp add: xmlRootNode_def)

lemma load_inv_load:
  assumes "xml_reader_load_from_data h parse r buffer err = Some (True, r0, err')"
  shows "load_inv h r0 r0"
  using load_success[OF assms] by (auto simp: load_inv_def split: option.splits)

lemma load_inv_enter:
  assumes "load_inv h r0 s" "xml_reader_read_start_element h s (Some name) = Some (b, s')"
  shows "load_inv h r0 s'"
proof (cases "error_state s")
  case True
  with assms show ?thesis by (simp add: xml_reader_read_start_element_def)
next
  case False
  from assms(1) obtain root where root: "xmlRootNode h s = Some root"
    and same: "xmlRootNode h r0 = Some root"
    by (auto simp: load_inv_def split: option.splits)
  from assms(2) False obtain cursor y where
    scan: "find_element h name cursor = Some y"
    and res: "(case y of None \<Rightarrow> start_element_missing h s
               | Some node \<Rightarrow> start_element_found h s node) = Some (b, s')"
    and cur: "node_cursor s = None \<longrightarrow> cursor = root"
    using root
    by (auto simp: xml_reader_read_start_element_def split: option.splits)
  show ?thesis
  proof (cases y)
    case None
    with res have "start_element_missing h s = Some (b, s')" by simp
    then have s': "xmlRootNode h s' = xmlRootNode h s" "error_state s'" "node_cursor s' = None"
      "depth s' = depth s" "parent s' = (if node_cursor s = None then root else node_cursor s)"
      using root
      by (auto simp: start_element_missing_def Let_def split: option.splits if_splits)
    with assms(1) root same show ?thesis
      by (auto simp: load_inv_def split: option.splits)
  next
    case (Some node)
    with res have "start_element_found h s node = Some (b, s')" by simp
    then have s': "xmlRootNode h s' = xmlRootNode h s" "node_cursor s' = Some node"
      by (auto simp: start_element_found_def Let_def split: option.splits if_splits)
    have "root \<noteq> None"
    proof
      assume "root = None"
      with assms(1) root same have "node_cursor s = None" by (simp add: load_inv_def)
      with cur \<open>root = None\<close> scan Some show False by simp
    qed
    with s' root same show ?thesis by (auto simp: load_inv_def)
  qed
qed

lemma load_inv_leave:
  assumes "load_inv h r0 s" "xml_reader_read_end_element h s = Some s'"
  shows "load_inv h r0 s'"
proof -
  from assms(1) obtain root where root: "xmlRootNode h s = Some root"
    and same: "xmlRootNode h r0 = Some root"
    by (auto simp: load_inv_def split: option.splits)
  show ?thesis
  proof (cases root)
    case None
    with assms root show ?thesis
      by (auto simp: load_inv_def xml_reader_read_end_element_def Let_def
          split: option.splits if_splits)
  next
    case (Some a)
    have "xmlRootNode h s' = Some root \<and> (s' = s \<or> node_cursor s' \<noteq> None)"
      using assms(2) root Some
      by (auto simp: xml_reader_read_end_element_def Let_def split: option.splits if_splits)
    with assms(1) root Some same show ?thesis
      by (auto simp: load_inv_def)
  qed
qed

lemma load_inv_run:
  "load_inv h r0 s \<Longrightarrow> run h ops s = Some s' \<Longrightarrow> load_inv h r0 s'"
proof (induction ops arbitrary: s)
  case Nil
  then show ?case by simp
next
  case (Cons x xs)
  from Cons.prems(2) obtain s1 where s1: "step h x s = Some s1" "run h xs s1 = Some s'"
    by (auto split: option.splits)
  have "load_inv h r0 s1"
  proof (cases x)
    case (Enter name)
    with s1(1) obtain b where "xml_reader_read_start_element h s (Some name) = Some (b, s1)"
      by auto
    with Cons.prems(1) show ?thesis by (rule load_inv_enter)
  next
    case Leave
    with s1(1) Cons.prems(1) show ?thesis by (auto intro: load_inv_leave)
  qed
  with Cons.IH s1(2) show ?case by blast
qed

lemma bracketed_inv:
  assumes "bracketed h r w r'" "links_ok h"
  shows "depth r' = depth r \<and> error_state r' = error_state r \<and> current_doc r' = current_doc r
     \<and> (\<forall>c. node_cursor r = Some c \<longrightarrow>
           node_cursor r' = Some c
           \<and> (parent r' = parent r
              \<or> (\<exists>cn. map_of (nodes h) c = Some cn \<and> parent r' = n_parent cn)))
     \<and> (node_cursor r = None \<longrightarrow> w \<noteq> [] \<longrightarrow> node_cursor r' \<noteq> None)"
  using assms
proof (induction rule: bracketed.induct)
  case (bracketed_Nil h r)
  then show ?case by simp
next
  case (bracketed_Pair h r name r1 w r2 r3 v r4)
  note ok = \<open>links_ok h\<close>
  from enter_success[OF bracketed_Pair(1)] obtain a where
    e: "\<not> error_state r" "\<not> error_state r1" "depth r1 = depth r + 1"
      "parent r1 = node_cursor r" "node_cursor r1 = Some a" "current_doc r1 = current_doc r"
    and kid: "\<forall>c. node_cursor r = Some c \<longrightarrow>
                (\<exists>cn. map_of (nodes h) c = Some cn
                   \<and> find_element h name (n_children cn) = Some (Some a))"
    and top: "node_cursor r = None \<longrightarrow> (\<exists>root. xmlRootNode h r = Some (Some root))"
    by (elim conjE exE) (rule that, assumption+)
  from bracketed_Pair.IH(1)[OF ok] e have
    i1: "depth r2 = depth r + 1" "\<not> error_state r2" "node_cursor r2 = Some a"
      "parent r2 = node_cursor r \<or> (\<exists>an. map_of (nodes h) a = Some an \<and> parent r2 = n_parent an)"
      "current_doc r2 = current_doc r"
    by auto
  from leave_normal[OF i1(2) i1(3) bracketed_Pair(3)] i1(1) i1(5) have
    l: "depth r3 = depth r" "\<not> error_state r3" "current_doc r3 = current_doc r"
      "\<forall>p. parent r2 = Some p \<longrightarrow>
           node_cursor r3 = Some p \<and> (\<exists>pn. map_of (nodes h) p = Some pn \<and> parent r3 = n_parent pn)"
      "parent r2 = None \<longrightarrow> xmlRootNode h r2 = Some (node_cursor r3)"
    by auto
  from bracketed_Pair.IH(2)[OF ok] have
    i2: "depth r4 = depth r3" "error_state r4 = error_state r3" "current_doc r4 = current_doc r3"
      "\<forall>c. node_cursor r3 = Some c \<longrightarrow>
           node_cursor r4 = Some c
           \<and> (parent r4 = parent r3
              \<or> (\<exists>cn. map_of (nodes h) c = Some cn \<and> parent r4 = n_parent cn))"
    by auto
  have pos: "node_cursor r4 = Some c
           \<and> (parent r4 = parent r
              \<or> (\<exists>cn. map_of (nodes h) c = Some cn \<and> parent r4 = n_parent cn))"
    if c: "node_cursor r = Some c" for c
  proof -
    from kid c obtain cn where cn: "map_of (nodes h) c = Some cn"
      "find_element h name (n_children cn) = Some (Some a)" by blast
    from find_element_child_parent[OF ok cn] obtain an where
      an: "map_of (nodes h) a = Some an" "n_parent an = Some c" by blast
    from i1(4) c an have "parent r2 = Some c" by auto
    with l(4) cn(1) have r3: "node_cursor r3 = Some c" "parent r3 = n_parent cn" by auto
    with i2(4) cn(1) show ?thesis by auto
  qed
  have unpos: "node_cursor r4 \<noteq> None" if n: "node_cursor r = None"
  proof -
    from top n obtain root where "xmlRootNode h r = Some (Some root)" by blast
    with xmlRootNode_same_doc[OF i1(5), of h] have root: "xmlRootNode h r2 = Some (Some root)"
      by simp
    have "node_cursor r3 \<noteq> None"
    proof (cases "parent r2")
      case None
      with l(5) root have "node_cursor r3 = Some root" by simp
      then show ?thesis by simp
    next
      case (Some p)
      with l(4) show ?thesis by auto
    qed
    with i2(4) show ?thesis by auto
  qed
  from pos unpos l(1-3) i2(1-3) e(1) show ?case by simp
qed

section \<open>Loading\<close>

text \<open>
  C1. A successful load leaves the reader without a cursor, at depth 0, with no selected
  attribute and no cached value, but it does not touch \<open>error_state\<close>. Here the
  reader is in its error state after a failed search; the load returns \<^verbatim>\<open>TRUE\<close>, the
  flag is still set afterwards, and entering the root element of the new document
  returns \<^verbatim>\<open>FALSE\<close>.
\<close>

theorem load_keeps_error_state:
  "error_state book_failed
   \<and> map_option fst
        (xml_reader_load_from_data book_memory (\<lambda>b. Some 0) book_failed (Some book_text) None)
       = Some True
   \<and> error_state book_reloaded
   \<and> node_cursor book_reloaded = None \<and> depth book_reloaded = 0
   \<and> attr_cursor book_reloaded = None
   \<and> cursor_value book_reloaded = None \<and> attr_value book_reloaded = None
   \<and> map_option fst (xml_reader_read_start_element book_memory book_reloaded (Some ''book''))
       = Some False"
  by code_simp

section \<open>Entering an element\<close>

text \<open>
  C2. Entering an element whose first child is not a text node keeps the text cached
  for the element entered before. In \<^verbatim>\<open><a>hello<b/></a>\<close> the element \<^verbatim>\<open>b\<close> has no
  child at all, yet after entering \<^verbatim>\<open>a\<close> and then \<^verbatim>\<open>b\<close> the element value read is
  the text of \<^verbatim>\<open>a\<close>.
\<close>

theorem enter_keeps_stale_text:
  "map_option n_children (map_of (nodes mixed_memory) 3) = Some None
   \<and> map_option node_cursor (run mixed_memory [Enter ''a'', Enter ''b''] mixed_reader)
       = Some (Some 3)
   \<and> map_option xml_reader_get_element_value
        (run mixed_memory [Enter ''a'', Enter ''b''] mixed_reader)
       = Some (Some ''hello'')"
  by code_simp

text \<open>
  The first search after a load runs over the top-level nodes. After a load into a
  reader that is not in its error state, on a well-formed document whose root element
  \<open>e\<close> is named \<open>R\<close>, entering \<open>R\<close> returns \<^verbatim>\<open>TRUE\<close> with the cursor on \<open>e\<close>, and
  entering any other name returns \<^verbatim>\<open>FALSE\<close>, sets the error state and records the
  unknown-node error.
\<close>

theorem first_enter_names_root:
  assumes "xml_reader_load_from_data h parse r buffer err = Some (True, r0, err')"
    and "\<not> error_state r"
    and "links_ok h"
    and "well_formed_document h r0 tops e R"
  shows "(\<exists>r1. xml_reader_read_start_element h r0 (Some R) = Some (True, r1)
            \<and> node_cursor r1 = Some e \<and> \<not> error_state r1)
       \<and> (\<forall>X. X \<noteq> R \<longrightarrow>
            (\<exists>r2. xml_reader_read_start_element h r0 (Some X) = Some (False, r2)
               \<and> error_state r2 \<and> last_error r2 = XML_READER_ERROR_UNKNOWN_NODE
               \<and> node_cursor r2 = None))"
proof -
  from load_success[OF assms(1)] obtain b d root where
    root: "xmlRootNode h r0 = Some root"
    and r0: "r0 = r\<lparr>cursor_value := None, attr_value := None, current_doc := Some d,
                  parent := root, node_cursor := None, attr_cursor := None, depth := 0\<rparr>"
    by blast
  from r0 assms(2) have ne: "\<not> error_state r0" "node_cursor r0 = None" by simp_all
  from assms(4) root have chain: "node_chain h root tops"
    and uniq: "filter (is_element h) tops = [e]" and nm: "element_named h R e"
    by (simp_all add: well_formed_document_def)
  have imp: "\<And>X x. element_named h X x \<Longrightarrow> is_element h x"
    by (auto simp: element_named_def is_element_def split: option.splits)
  from nm obtain en where en: "map_of (nodes h) e = Some en" "n_type en = XML_ELEMENT_NODE"
    "n_name en = Some R"
    by (auto simp: element_named_def split: option.splits)
  have hit: "find_element h R root = Some (Some e)"
    using find_element_chain[OF chain, of R]
      find_unique_hit[where P = "is_element h" and Q = "element_named h R", OF uniq nm imp]
    by simp
  have child: "\<And>c. n_children en = Some c \<Longrightarrow> \<exists>m. map_of (nodes h) c = Some m"
    using links_okD(1)[OF assms(3) en(1)] by blast
  have found: "\<exists>r1. start_element_found h r0 e = Some (True, r1) \<and> node_cursor r1 = Some e
      \<and> \<not> error_state r1"
    using en child ne by (auto simp: start_element_found_def Let_def split: option.splits)
  have A: "\<exists>r1. xml_reader_read_start_element h r0 (Some R) = Some (True, r1)
            \<and> node_cursor r1 = Some e \<and> \<not> error_state r1"
    using found hit root ne by (simp add: xml_reader_read_start_element_def)
  have B: "\<exists>r2. xml_reader_read_start_element h r0 (Some X) = Some (False, r2)
               \<and> error_state r2 \<and> last_error r2 = XML_READER_ERROR_UNKNOWN_NODE
               \<and> node_cursor r2 = None" if "X \<noteq> R" for X
  proof -
    from that en have "\<not> element_named h X e" by (simp add: element_named_def)
    then have miss: "find_element h X root = Some None"
      using find_element_chain[OF chain, of X]
        find_unique_miss[where P = "is_element h" and Q = "element_named h X", OF uniq _ imp]
      by simp
    have "\<exists>r2. start_element_missing h r0 = Some (False, r2)
               \<and> error_state r2 \<and> last_error r2 = XML_READER_ERROR_UNKNOWN_NODE
               \<and> node_cursor r2 = None"
      using root ne by (simp add: start_element_missing_def Let_def xmlRootNode_def)
    with miss root ne show ?thesis by (simp add: xml_reader_read_start_element_def)
  qed
  from A B show ?thesis by blast
qed

text \<open>
  On the book document: \<^verbatim>\<open>book\<close> is entered, and \<^verbatim>\<open>author\<close>, a child of the root,
  is not found by the first call.
\<close>

theorem first_enter_names_root_witness:
  "xml_reader_load_from_data book_memory (\<lambda>b. Some 0) xml_reader_init (Some book_text) None
     = Some (True, book_reader, None)
   \<and> \<not> error_state xml_reader_init
   \<and> links_ok book_memory
   \<and> well_formed_document book_memory book_reader [1] 1 ''book''
   \<and> map_option fst (xml_reader_read_start_element book_memory book_reader (Some ''book''))
       = Some True
   \<and> map_option fst (xml_reader_read_start_element book_memory book_reader (Some ''author''))
       = Some False"
proof -
  have h1: "xml_reader_load_from_data book_memory (\<lambda>b. Some 0) xml_reader_init
              (Some book_text) None = Some (True, book_reader, None)"
    by code_simp
  have h2: "\<not> error_state xml_reader_init" by code_simp
  have h3: "links_ok book_memory" by code_simp
  have h4: "well_formed_document book_memory book_reader [1] 1 ''book''" by code_simp
  have ne: "''author'' \<noteq> ''book''" by simp
  note root = first_enter_names_root[OF h1 h2 h3 h4]
  from root obtain r1 where
    "xml_reader_read_start_element book_memory book_reader (Some ''book'') = Some (True, r1)"
    by blast
  then have c1: "map_option fst
                   (xml_reader_read_start_element book_memory book_reader (Some ''book''))
                 = Some True"
    by simp
  have "\<exists>r2. xml_reader_read_start_element book_memory book_reader (Some ''author'')
                = Some (False, r2)
              \<and> error_state r2 \<and> last_error r2 = XML_READER_ERROR_UNKNOWN_NODE
              \<and> node_cursor r2 = None"
    by (rule conjunct2[OF root, rule_format, OF ne])
  then obtain r2 where
    "xml_reader_read_start_element book_memory book_reader (Some ''author'') = Some (False, r2)"
    by (elim exE conjE)
  then have c2: "map_option fst
                   (xml_reader_read_start_element book_memory book_reader (Some ''author''))
                 = Some False"
    by simp
  show ?thesis by (intro conjI h1 h2 h3 h4 c1 c2)
qed

text \<open>
  C5. The first call after a load does not always enter the root element. The reader
  was in its error state when the book document was loaded into it; the load returns
  \<^verbatim>\<open>TRUE\<close>, the document is well formed with root element \<^verbatim>\<open>book\<close>, and the first
  call, entering \<^verbatim>\<open>book\<close>, returns \<^verbatim>\<open>FALSE\<close> and leaves the reader as it is.
\<close>

theorem first_enter_after_reload_fails:
  "map_option fst
     (xml_reader_load_from_data book_memory (\<lambda>b. Some 0) book_failed (Some book_text) None)
    = Some True
   \<and> links_ok book_memory
   \<and> well_formed_document book_memory book_reloaded [1] 1 ''book''
   \<and> node_cursor book_reloaded = None \<and> depth book_reloaded = 0
   \<and> xml_reader_read_start_element book_memory book_reloaded (Some ''book'')
       = Some (False, book_reloaded)"
  by code_simp

section \<open>Recovering from a failed search\<close>

text \<open>
  C4 (amended). When entering an element fails in a reader that was not in its error
  state, the reader is in its error state with the unknown-node error and the same
  depth, and the next call to leave returns, clears the error state and keeps the
  depth. If there was a cursor, the reader is again the one before the failed call
  except for three fields: \<open>last_error\<close>, the selected attribute (cleared) and \<open>parent\<close>,
  which is now the parent of the current node in the tree; the current node and its
  name are the same. If there was no cursor, the cursor is afterwards on the node that
  \<^verbatim>\<open>xmlRootNode\<close> gives.
\<close>

theorem failed_enter_then_leave:
  assumes "\<not> error_state r"
    and "xml_reader_read_start_element h r (Some name) = Some (False, r1)"
  shows "error_state r1 \<and> last_error r1 = XML_READER_ERROR_UNKNOWN_NODE \<and> depth r1 = depth r
     \<and> (\<exists>r2. xml_reader_read_end_element h r1 = Some r2
           \<and> \<not> error_state r2 \<and> depth r2 = depth r
           \<and> (\<forall>c. node_cursor r = Some c \<longrightarrow>
                 (\<exists>cn. map_of (nodes h) c = Some cn
                    \<and> r2 = r\<lparr>last_error := XML_READER_ERROR_UNKNOWN_NODE,
                             parent := n_parent cn, attr_cursor := None\<rparr>)
                 \<and> xml_reader_get_element_name h r2 = xml_reader_get_element_name h r)
           \<and> (node_cursor r = None \<longrightarrow> xmlRootNode h r = Some (node_cursor r2)))"
proof (cases "node_cursor r")
  case None
  with assms obtain root where root: "xmlRootNode h r = Some root"
    by (auto simp: xml_reader_read_start_element_def split: option.splits)
  with assms None have scan: "find_element h name root = Some None"
    by (auto simp: xml_reader_read_start_element_def start_element_found_def Let_def
        split: option.splits)
  with assms None root have r1: "r1 = r\<lparr>error_state := True,
      last_error := XML_READER_ERROR_UNKNOWN_NODE, parent := root, node_cursor := None,
      attr_cursor := None\<rparr>"
    by (auto simp: xml_reader_read_start_element_def start_element_missing_def Let_def)
  have valid: "\<exists>n. map_of (nodes h) a = Some n" if "root = Some a" for a
    using scan that find_element_deref by blast
  show ?thesis
    using None r1 root valid
    by (auto simp: xml_reader_read_end_element_def Let_def xmlRootNode_def split: option.splits)
next
  case (Some c)
  with assms obtain cn where cn: "map_of (nodes h) c = Some cn"
    by (auto simp: xml_reader_read_start_element_def split: option.splits)
  with assms Some have scan: "find_element h name (n_children cn) = Some None"
    by (auto simp: xml_reader_read_start_element_def start_element_found_def Let_def
        split: option.splits)
  with assms Some cn have r1: "r1 = r\<lparr>error_state := True,
      last_error := XML_READER_ERROR_UNKNOWN_NODE, parent := Some c, node_cursor := None,
      attr_cursor := None\<rparr>"
    by (auto simp: xml_reader_read_start_element_def start_element_missing_def Let_def)
  show ?thesis
    using Some r1 cn assms(1)
    by (auto simp: xml_reader_read_end_element_def Let_def xml_reader_get_element_name_def)
qed

text \<open>Inside \<^verbatim>\<open>book\<close>, a search for a missing element and the leave after it.\<close>

theorem failed_enter_then_leave_witness:
  "\<not> error_state book_entered
   \<and> xml_reader_read_start_element book_memory book_entered (Some ''missing'')
       = Some (False, book_inner_failed)
   \<and> error_state book_inner_failed
   \<and> map_option error_state (xml_reader_read_end_element book_memory book_inner_failed)
       = Some False
   \<and> map_option node_cursor (xml_reader_read_end_element book_memory book_inner_failed)
       = Some (node_cursor book_entered)
   \<and> map_option depth (xml_reader_read_end_element book_memory book_inner_failed)
       = Some (depth book_entered)"
proof -
  have h1: "\<not> error_state book_entered" by code_simp
  have h2: "xml_reader_read_start_element book_memory book_entered (Some ''missing'')
              = Some (False, book_inner_failed)"
    by code_simp
  have c: "node_cursor book_entered = Some 1" by code_simp
  from failed_enter_then_leave[OF h1 h2] c
  have concl: "error_state book_inner_failed
   \<and> map_option error_state (xml_reader_read_end_element book_memory book_inner_failed)
       = Some False
   \<and> map_option node_cursor (xml_reader_read_end_element book_memory book_inner_failed)
       = Some (node_cursor book_entered)
   \<and> map_option depth (xml_reader_read_end_element book_memory book_inner_failed)
       = Some (depth book_entered)"
    by auto
  show ?thesis by (intro conjI h1 h2 concl)
qed

text \<open>
  As first stated the property fails when there is no cursor before the failed call:
  on the freshly loaded book document the reader has no current node and no element
  name, and after the failed search and the leave the cursor is on \<^verbatim>\<open>book\<close>.
\<close>

theorem failed_enter_then_leave_counterexample:
  "\<not> error_state book_reader
   \<and> map_option fst (xml_reader_read_start_element book_memory book_reader (Some ''missing''))
       = Some False
   \<and> error_state book_failed
   \<and> xml_reader_read_end_element book_memory book_failed = Some book_recovered
   \<and> \<not> error_state book_recovered
   \<and> node_cursor book_reader = None
   \<and> node_cursor book_recovered = Some 1
   \<and> xml_reader_get_element_name book_memory book_reader = Some None
   \<and> xml_reader_get_element_name book_memory book_recovered = Some (Some ''book'')"
  by code_simp

section \<open>Depth and cursor\<close>

text \<open>
  C3 (amended). Take a reader reached from a successful load by calls to enter and
  leave, and not in its error state. If it has no current node, its depth is 0. If the
  document has a top-level node, it has no current node exactly when it is equal to
  the reader that the load returned: every such reader that differs from the loaded
  one has a current node, whatever its depth.
\<close>

theorem absent_cursor_is_fresh_load:
  assumes "xml_reader_load_from_data h parse r buffer err = Some (True, r0, err')"
    and "run h ops r0 = Some s"
    and "\<not> error_state s"
  shows "(node_cursor s = None \<longrightarrow> depth s = 0)
       \<and> (xmlRootNode h r0 \<noteq> Some None \<longrightarrow> (node_cursor s = None) = (s = r0))"
proof -
  from load_success[OF assms(1)] have r0: "node_cursor r0 = None" "depth r0 = 0" by auto
  from load_inv_run[OF load_inv_load[OF assms(1)] assms(2)] have inv: "load_inv h r0 s" .
  from inv assms(3) have a: "node_cursor s = None \<longrightarrow> depth s = 0"
    by (auto simp: load_inv_def split: option.splits)
  from inv assms(3) r0 have b: "xmlRootNode h r0 \<noteq> Some None \<longrightarrow> (node_cursor s = None) = (s = r0)"
    by (auto simp: load_inv_def split: option.splits)
  from a b show ?thesis by blast
qed

text \<open>
  On the book document. After entering and leaving \<^verbatim>\<open>book\<close> the reader is no longer
  the loaded one, so it has a current node. After a leave right after the load the
  reader is the loaded one: no current node, depth 0.
\<close>

theorem absent_cursor_is_fresh_load_witness:
  "xml_reader_load_from_data book_memory (\<lambda>b. Some 0) xml_reader_init (Some book_text) None
     = Some (True, book_reader, None)
   \<and> run book_memory [Enter ''book'', Leave] book_reader = Some book_rest
   \<and> \<not> error_state book_rest
   \<and> xmlRootNode book_memory book_reader = Some (Some 1)
   \<and> book_rest \<noteq> book_reader
   \<and> node_cursor book_rest \<noteq> None
   \<and> run book_memory [Leave] book_reader = Some book_reader
   \<and> \<not> error_state book_reader
   \<and> node_cursor book_reader = None
   \<and> depth book_reader = 0"
proof -
  have h1: "xml_reader_load_from_data book_memory (\<lambda>b. Some 0) xml_reader_init
              (Some book_text) None = Some (True, book_reader, None)"
    by code_simp
  have h2: "run book_memory [Enter ''book'', Leave] book_reader = Some book_rest" by code_simp
  have h3: "\<not> error_state book_rest" by code_simp
  have root: "xmlRootNode book_memory book_reader = Some (Some 1)" by code_simp
  have ne: "book_rest \<noteq> book_reader" by code_simp
  from root have root': "xmlRootNode book_memory book_reader \<noteq> Some None" by simp
  from absent_cursor_is_fresh_load[OF h1 h2 h3] root' ne
  have c1: "node_cursor book_rest \<noteq> None" by blast
  have k2: "run book_memory [Leave] book_reader = Some book_reader" by code_simp
  have k3: "\<not> error_state book_reader" by code_simp
  have k4: "node_cursor book_reader = None" by code_simp
  from absent_cursor_is_fresh_load[OF h1 k2 k3] k4
  have c2: "depth book_reader = 0" by blast
  show ?thesis by (intro conjI h1 h2 h3 root ne c1 k2 k3 k4 c2)
qed

text \<open>
  Depth 0 does not imply a missing current node: after entering and leaving \<^verbatim>\<open>book\<close>
  the reader is not in its error state, its depth is 0 and its cursor is on \<^verbatim>\<open>book\<close>.
\<close>

theorem depth_zero_with_cursor_counterexample:
  "xml_reader_load_from_data book_memory (\<lambda>b. Some 0) xml_reader_init (Some book_text) None
     = Some (True, book_reader, None)
   \<and> run book_memory [Enter ''book'', Leave] book_reader = Some book_rest
   \<and> \<not> error_state book_rest
   \<and> depth book_rest = 0
   \<and> node_cursor book_rest = Some 1"
  by code_simp

text \<open>
  C6 (amended). On a tree whose parent links agree with its child lists, a sequence of
  successful enters, each closed by its own leave, brings the depth back to what it was
  before the sequence. If the reader had a current node before the sequence, it has the
  same current node and the same element name after it. If it had none and the
  sequence is not empty, it has a current node after it.
\<close>

theorem bracketed_restores:
  assumes "bracketed h r w r'" and "links_ok h"
  shows "depth r' = depth r
     \<and> (node_cursor r \<noteq> None \<longrightarrow>
          node_cursor r' = node_cursor r
          \<and> xml_reader_get_element_name h r' = xml_reader_get_element_name h r)
     \<and> (node_cursor r = None \<longrightarrow> w \<noteq> [] \<longrightarrow> node_cursor r' \<noteq> None)"
  using bracketed_inv[OF assms]
  by (auto simp: xml_reader_get_element_name_def)

text \<open>
  Inside \<^verbatim>\<open>book\<close>: enter and leave \<^verbatim>\<open>author\<close>, then enter and leave \<^verbatim>\<open>title\<close>.
  From the loaded reader: enter \<^verbatim>\<open>book\<close>, enter \<^verbatim>\<open>author\<close>, leave, leave.
\<close>

theorem bracketed_restores_witness:
  "bracketed book_memory book_entered [Enter ''author'', Leave, Enter ''title'', Leave] book_back
   \<and> links_ok book_memory
   \<and> depth book_back = depth book_entered
   \<and> node_cursor book_back = node_cursor book_entered
   \<and> xml_reader_get_element_name book_memory book_back
       = xml_reader_get_element_name book_memory book_entered
   \<and> bracketed book_memory book_reader [Enter ''book'', Enter ''author'', Leave, Leave]
       book_nested
   \<and> node_cursor book_reader = None
   \<and> depth book_nested = depth book_reader
   \<and> node_cursor book_nested \<noteq> None"
proof -
  let ?s1 = "the (run book_memory [Enter ''book'', Enter ''author''] book_reader)"
  let ?s2 = "the (run book_memory [Enter ''book'', Enter ''author'', Leave] book_reader)"
  let ?s3 = "the (run book_memory [Enter ''book'', Enter ''author'', Leave, Enter ''title'']
                    book_reader)"
  have e1: "xml_reader_read_start_element book_memory book_entered (Some ''author'')
              = Some (True, ?s1)"
    by code_simp
  have e2: "xml_reader_read_end_element book_memory ?s1 = Some ?s2" by code_simp
  have e3: "xml_reader_read_start_element book_memory ?s2 (Some ''title'') = Some (True, ?s3)"
    by code_simp
  have e4: "xml_reader_read_end_element book_memory ?s3 = Some book_back" by code_simp
  have "bracketed book_memory ?s2 (Enter ''title'' # [] @ Leave # []) book_back"
    by (rule bracketed_Pair[OF e3 bracketed_Nil e4 bracketed_Nil])
  then have "bracketed book_memory book_entered
               (Enter ''author'' # [] @ Leave # Enter ''title'' # [] @ Leave # []) book_back"
    by (rule bracketed_Pair[OF e1 bracketed_Nil e2])
  then have h1: "bracketed book_memory book_entered
                   [Enter ''author'', Leave, Enter ''title'', Leave] book_back"
    by simp
  have h2: "links_ok book_memory" by code_simp
  have c: "node_cursor book_entered \<noteq> None" by code_simp
  from bracketed_restores[OF h1 h2] c
  have d1: "depth book_back = depth book_entered"
    and d2: "node_cursor book_back = node_cursor book_entered"
    and d3: "xml_reader_get_element_name book_memory book_back
               = xml_reader_get_element_name book_memory book_entered"
    by simp_all
  have f1: "xml_reader_read_start_element book_memory book_reader (Some ''book'')
              = Some (True, book_entered)"
    by code_simp
  have f2: "xml_reader_read_end_element book_memory ?s2 = Some book_nested" by code_simp
  have "bracketed book_memory book_entered (Enter ''author'' # [] @ Leave # []) ?s2"
    by (rule bracketed_Pair[OF e1 bracketed_Nil e2 bracketed_Nil])
  then have "bracketed book_memory book_reader
               (Enter ''book'' # (Enter ''author'' # [] @ Leave # []) @ Leave # []) book_nested"
    by (rule bracketed_Pair[OF f1 _ f2 bracketed_Nil])
  then have g1: "bracketed book_memory book_reader
                   [Enter ''book'', Enter ''author'', Leave, Leave] book_nested"
    by simp
  have g2: "node_cursor book_reader = None" by code_simp
  have g3: "[Enter ''book'', Enter ''author'', Leave, Leave] \<noteq> []" by simp
  from bracketed_restores[OF g1 h2] g2 g3
  have d4: "depth book_nested = depth book_reader"
    and d5: "node_cursor book_nested \<noteq> None"
    by simp_all
  show ?thesis by (intro conjI h1 h2 d1 d2 d3 g1 g2 d4 d5)
qed

text \<open>
  From a reader without a current node the element name need not be restored: on the
  freshly loaded book document there is no element name, and after entering and
  leaving \<^verbatim>\<open>book\<close> the name read is \<^verbatim>\<open>book\<close>.
\<close>

theorem bracketed_name_counterexample:
  "xml_reader_read_start_element book_memory book_reader (Some ''book'')
     = Some (True, book_entered)
   \<and> xml_reader_read_end_element book_memory book_entered = Some book_rest
   \<and> depth book_rest = depth book_reader
   \<and> xml_reader_get_element_name book_memory book_reader = Some None
   \<and> xml_reader_get_element_name book_memory book_rest = Some (Some ''book'')"
  by code_simp

text \<open>
  C7. The depth becomes negative: on the book document, entering \<^verbatim>\<open>book\<close> and leaving
  it gives depth 0 with the cursor parked on \<^verbatim>\<open>book\<close>, so one more leave passes the
  test for a missing cursor and the depth is \<open>- 1\<close>.
\<close>

theorem extra_leave_negative_depth:
  "map_option depth (run book_memory [Enter ''book'', Leave] book_reader) = Some 0
   \<and> map_option node_cursor (run book_memory [Enter ''book'', Leave] book_reader)
       = Some (Some 1)
   \<and> map_option depth (run book_memory [Enter ''book'', Leave, Leave] book_reader)
       = Some (- 1)"
  by code_simp

section \<open>Attributes\<close>

text \<open>
  C8. With the cursor on an element whose attributes are \<open>as\<close>, in a reader that is not
  in its error state: when no attribute has the name, the call returns \<^verbatim>\<open>FALSE\<close> and
  the reader is unchanged, so the selected attribute and the cached value are what they
  were; when one has, the call returns \<^verbatim>\<open>TRUE\<close>, the first such attribute is selected
  and its value is cached.
\<close>

theorem read_attribute_name_frame:
  assumes "node_cursor r = Some c"
    and "\<not> error_state r"
    and "map_of (nodes h) c = Some cn"
    and "n_type cn = XML_ELEMENT_NODE"
    and "attr_chain h (n_properties cn) as"
  shows "xml_reader_read_attribute_name h r (Some name) =
     (case List.find (attr_named h name) as of
        None \<Rightarrow> Some (False, r)
      | Some a \<Rightarrow>
          Some (True, r\<lparr>attr_cursor := Some a,
                         attr_value := map_option a_value (map_of (attrs h) a)\<rparr>))"
proof -
  have scan: "find_attribute h n (n_properties cn) = Some (List.find (attr_named h n) as)" for n
    by (rule find_attribute_chain[OF assms(5)])
  show ?thesis
  proof (cases "List.find (attr_named h name) as")
    case None
    then show ?thesis
      using assms(1-3) scan[of name]
      by (simp add: xml_reader_read_attribute_name_def xml_reader_has_attributes_def)
  next
    case (Some a)
    then have "attr_named h name a" by (auto simp: find_Some_iff)
    then obtain an where an: "map_of (attrs h) a = Some an" "a_name an = name"
      by (auto simp: attr_named_def split: option.splits)
    from Some assms(5) have "n_properties cn \<noteq> None" by (cases as) auto
    then show ?thesis
      using assms(1-4) scan[of name] Some an
      by (simp add: xml_reader_read_attribute_name_def xml_reader_has_attributes_def
          xmlGetProp_def)
  qed
qed

text \<open>
  On \<^verbatim>\<open>node\<close>: \<^verbatim>\<open>dir\<close> is found and its value cached; after that \<^verbatim>\<open>lang\<close> is not found
  and the cached value stays.
\<close>

theorem read_attribute_name_frame_witness:
  "node_cursor attr_entered = Some 1
   \<and> \<not> error_state attr_entered
   \<and> map_option n_type (map_of (nodes attr_memory) 1) = Some XML_ELEMENT_NODE
   \<and> attr_chain attr_memory (Some 0) [0, 1]
   \<and> xml_reader_read_attribute_name attr_memory attr_entered (Some ''dir'')
       = Some (True, attr_entered\<lparr>attr_cursor := Some 1, attr_value := Some ''rtl''\<rparr>)
   \<and> xml_reader_read_attribute_name attr_memory
        (attr_entered\<lparr>attr_cursor := Some 1, attr_value := Some ''rtl''\<rparr>) (Some ''lang'')
       = Some (False, attr_entered\<lparr>attr_cursor := Some 1, attr_value := Some ''rtl''\<rparr>)"
proof -
  let ?cn = "mk_node XML_ELEMENT_NODE (Some ''node'') (Some 2) (Some 0) None None (Some 0)"
  let ?r = "attr_entered\<lparr>attr_cursor := Some 1, attr_value := Some ''rtl''\<rparr>"
  have h1: "node_cursor attr_entered = Some 1" by code_simp
  have h2: "\<not> error_state attr_entered" by code_simp
  have h3: "map_of (nodes attr_memory) 1 = Some ?cn" by code_simp
  have h4: "n_type ?cn = XML_ELEMENT_NODE" by code_simp
  have h5: "attr_chain attr_memory (n_properties ?cn) [0, 1]" by code_simp
  have h5': "attr_chain attr_memory (Some 0) [0, 1]" by code_simp
  have f1: "List.find (attr_named attr_memory ''dir'') [0, 1] = Some 1" by code_simp
  have f2: "List.find (attr_named attr_memory ''lang'') [0, 1] = None" by code_simp
  have v: "map_option a_value (map_of (attrs attr_memory) 1) = Some ''rtl''" by code_simp
  have h1r: "node_cursor ?r = Some 1" using h1 by simp
  have h2r: "\<not> error_state ?r" using h2 by simp
  have a: "xml_reader_read_attribute_name attr_memory attr_entered (Some ''dir'')
             = Some (True, ?r)"
    using read_attribute_name_frame[OF h1 h2 h3 h4 h5, of "''dir''"] f1 v by simp
  have b: "xml_reader_read_attribute_name attr_memory ?r (Some ''lang'') = Some (False, ?r)"
    using read_attribute_name_frame[OF h1r h2r h3 h4 h5, of "''lang''"] f2 by simp
  have h3': "map_option n_type (map_of (nodes attr_memory) 1) = Some XML_ELEMENT_NODE"
    by code_simp
  show ?thesis by (intro conjI h1 h2 h3' h5' a b)
qed

section \<open>The error query and the attribute value\<close>

text \<open>
  C9. \<^verbatim>\<open>xml_reader_get_attribute_value\<close> returns the cached attribute value whatever
  the error flag and the cursor are: changing either of them in the reader does not
  change what is returned, while the element value is withheld in an error state.
\<close>

theorem get_attribute_value_unchecked:
  "xml_reader_get_attribute_value r = attr_value r
   \<and> xml_reader_get_attribute_value (r\<lparr>error_state := e, node_cursor := c\<rparr>) = attr_value r
   \<and> xml_reader_get_element_value (r\<lparr>error_state := True\<rparr>) = None"
  by (simp add: xml_reader_get_attribute_value_def xml_reader_get_element_value_def
      xml_reader_get_error_def)

text \<open>
  C10. Given an empty error location, \<^verbatim>\<open>xml_reader_get_error\<close> stores an error with the
  last recorded code in it, whether or not the reader is in its error state; the
  boolean returned is the error flag for every kind of location; and with the \<^verbatim>\<open>NULL\<close>
  location, which is what the traversal functions pass, nothing is stored.
\<close>

theorem get_error_fills_location:
  "xml_reader_get_error r (Some None) =
     (error_state r,
      Some (Some \<lparr>domain = XML_READER_ERROR, code = last_error r, message = ''XmlReader error''\<rparr>))
   \<and> fst (xml_reader_get_error r err) = error_state r
   \<and> xml_reader_get_error r None = (error_state r, None)"
  by (simp add: xml_reader_get_error_def g_set_error_def)

end
